theory Spec2Isabelle
  imports Complex_Main
begin

section \<open>Data model\<close>

text \<open>
  Instants (\<open>time.Time\<close>) and durations (\<open>time.Duration\<close>) are integers counting
  nanoseconds; \<open>zeroTime\<close> is the zero value of \<open>time.Time\<close>. A \<open>float64\<close> is
  idealised as a real number (no rounding, no NaN, no infinities). A Go string is a
  list of bytes. Indices are natural numbers: every index of the source starts at
  zero and only grows by one below a slice length, so a machine \<open>int\<close> never wraps.
\<close>

type_synonym time = int
type_synonym duration = int

definition zeroTime :: time where
  "zeroTime = 0"

text \<open>
  Modelled from the spec: \<open>types.TokenInfo\<close> is declared outside the files at hand.
  The access token and its expiry are the fields the pool reads; any further field
  lives in the record's extension slot.
\<close>

record TokenInfo =
  AccessToken :: string
  ExpiresAt :: time

text \<open>
  Modelled from the spec: \<open>types.UsageLimits\<close> with the fields
  \<open>CalculateAvailableCount\<close> reads. \<open>FreeTrial\<close> is the pointer field
  \<open>FreeTrialInfo\<close> (\<open>None\<close> is \<open>nil\<close>).
\<close>

record FreeTrialInfo =
  FreeTrialStatus :: string
  ftUsageLimitWithPrecision :: real
  ftCurrentUsageWithPrecision :: real

record UsageBreakdown =
  ResourceType :: string
  FreeTrial :: "FreeTrialInfo option"
  UsageLimitWithPrecision :: real
  CurrentUsageWithPrecision :: real

record UsageLimits =
  UsageBreakdownList :: "UsageBreakdown list"

record CachedToken =
  Token :: TokenInfo
  UsageInfo :: "UsageLimits option"
  CachedAt :: time
  LastUsed :: time
  Available :: real

record SimpleTokenCache =
  tokens :: "string \<rightharpoonup> CachedToken"
  ttl :: duration

record AuthConfig =
  AuthType :: string
  RefreshToken :: string
  ClientID :: string
  ClientSecret :: string
  Disabled :: bool

definition AuthMethodSocial :: string where
  "AuthMethodSocial = ''Social''"

definition AuthMethodIdC :: string where
  "AuthMethodIdC = ''IdC''"

text \<open>
  The pool state. The mutex is left out: every operation below holds it from its first
  to its last step, so one call is one atomic transition. \<open>exhausted\<close> is a
  \<open>map[string]bool\<close> that only ever stores \<open>true\<close>, hence a set of keys.
  \<open>cache.tokens\<close> maps a key to a pointer; every refresh allocates a fresh
  \<open>CachedToken\<close>, so no two keys share an entry and the entry is stored by value
  under its key.
\<close>

record TokenManager =
  cache :: SimpleTokenCache
  configs :: "AuthConfig list"
  lastRefresh :: time
  configOrder :: "string list"
  currentIndex :: nat
  exhausted :: "string set"

datatype error =
    ErrNoUsableToken
  | ErrIndexOutOfRange
  | ErrTokenDisabled
  | ErrRefreshFailed string
  | ErrOpenCSV string
  | ErrReadCSV string
  | ErrCSVEmpty
  | ErrEnvMissing
  | ErrReadConfigFile string string
  | ErrInvalidJSON string
  | ErrParseConfig error
  | ErrConfigEmpty
  | ErrNoValidConfig
  | ErrLoadConfig error
  | ErrNoTokenConfig
  | RuntimePanic

datatype log_event =
    LogManagerInit nat nat
  | LogGenerateOrder nat "string list"
  | LogSelectedNoOrder string real
  | LogRefreshFailed string error
  | LogSelected string nat real
  | LogSwitchNext string nat
  | LogAllUnavailable nat nat
  | LogUsageCheckFailed string
  | LogCacheUpdated string real
  | LogRefreshAllStart
  | LogRefreshIndexFailed nat error
  | LogDeprecatedEnv string
  | LogMigrationExample
  | LogLoadFromFile string
  | LogLoadFromEnv
  | LogConfigsLoaded nat nat
  | LogSkipCSVRow nat
  | LogCSVLoaded nat
  | LogCSVAdded nat nat
  | LogCreateService
  | LogServiceCSV nat
  | LogServiceCSVExtra nat
  | LogWarmupFailed error
  | LogServiceCreated nat

text \<open>What opening and reading a CSV file gives: \<open>os.Open\<close> fails, \<open>ReadAll\<close>
  fails, or the records come back.\<close>

datatype csv_result =
    OpenFails string
  | ReadAllFails string
  | Records "string list list"

text \<open>
  Everything outside the two files: the constants of package \<open>config\<close>, the clock,
  the two remote collaborators, the iteration order of a Go map, the process
  environment, the file system, and the library functions of \<open>encoding/json\<close>,
  \<open>encoding/csv\<close> and \<open>strings\<close>. The clock and the collaborators answer by
  call number, so two calls may differ.

  Modelled from the spec: \<open>refreshSingleToken\<close> is the refresh collaborator
  \<open>exchange(credentialConfig) -> (accessToken, expiresAt) | error\<close> and
  \<open>CheckUsageLimits\<close> the usage collaborator
  \<open>fetchUsage(accessToken) -> usageSnapshot | error\<close>; \<open>TokenCacheKeyFormat\<close> is
  \<open>fmt.Sprintf(config.TokenCacheKeyFormat, i)\<close> and \<open>TokenCacheTTL\<close> the
  cache TTL.
\<close>

record env =
  TokenCacheTTL :: duration
  TokenCacheKeyFormat :: "nat \<Rightarrow> string"
  clock :: "nat \<Rightarrow> time"
  refreshSingleToken :: "nat \<Rightarrow> AuthConfig \<Rightarrow> string + TokenInfo"
  CheckUsageLimits :: "nat \<Rightarrow> TokenInfo \<Rightarrow> string + UsageLimits"
  rangeOrder :: "(string \<rightharpoonup> CachedToken) \<Rightarrow> string list"
  Getenv :: "string \<Rightarrow> string"
  IsRegularFile :: "string \<Rightarrow> bool"
  ReadFile :: "string \<Rightarrow> string + string"
  UnmarshalList :: "string \<Rightarrow> string + AuthConfig list"
  UnmarshalObject :: "string \<Rightarrow> string + AuthConfig"
  ReadCSV :: "string \<Rightarrow> csv_result"
  TrimSpace :: "string \<Rightarrow> string"
  ToLower :: "string \<Rightarrow> string"

text \<open>The effects of a run so far: how often the clock was read, the calls made to
  the two collaborators (in order), and the log lines written.\<close>

record world =
  clockReads :: nat
  refreshCalls :: "AuthConfig list"
  usageCalls :: "TokenInfo list"
  logs :: "log_event list"

section \<open>Effects\<close>

definition logmsg :: "log_event \<Rightarrow> world \<Rightarrow> world" where
  "logmsg e w = w\<lparr>logs := logs w @ [e]\<rparr>"

definition now :: "env \<Rightarrow> world \<Rightarrow> time \<times> world" where
  "now E w = (clock E (clockReads w), w\<lparr>clockReads := Suc (clockReads w)\<rparr>)"

definition since :: "env \<Rightarrow> time \<Rightarrow> world \<Rightarrow> duration \<times> world" where
  "since E t w = (case now E w of (n, w') \<Rightarrow> (n - t, w'))"

definition callRefresh :: "env \<Rightarrow> AuthConfig \<Rightarrow> world \<Rightarrow> (string + TokenInfo) \<times> world" where
  "callRefresh E cfg w =
     (refreshSingleToken E (length (refreshCalls w)) cfg,
      w\<lparr>refreshCalls := refreshCalls w @ [cfg]\<rparr>)"

definition callUsage :: "env \<Rightarrow> TokenInfo \<Rightarrow> world \<Rightarrow> (string + UsageLimits) \<times> world" where
  "callUsage E tok w =
     (CheckUsageLimits E (length (usageCalls w)) tok,
      w\<lparr>usageCalls := usageCalls w @ [tok]\<rparr>)"

section \<open>Availability model\<close>

fun availableLoop :: "UsageBreakdown list \<Rightarrow> real" where
  "availableLoop [] = 0"
| "availableLoop (breakdown # rest) =
     (if ResourceType breakdown = ''CREDIT'' then
        let totalAvailable =
              (case FreeTrial breakdown of
                 None \<Rightarrow> 0
               | Some ft \<Rightarrow>
                   if FreeTrialStatus ft = ''ACTIVE''
                   then 0 + (ftUsageLimitWithPrecision ft - ftCurrentUsageWithPrecision ft)
                   else 0);
            baseAvailable = UsageLimitWithPrecision breakdown - CurrentUsageWithPrecision breakdown;
            totalAvailable = totalAvailable + baseAvailable
        in if totalAvailable < 0 then 0 else totalAvailable
      else availableLoop rest)"

definition CalculateAvailableCount :: "UsageLimits \<Rightarrow> real" where
  "CalculateAvailableCount usage = availableLoop (UsageBreakdownList usage)"

section \<open>Cache entries\<close>

definition IsUsable :: "env \<Rightarrow> CachedToken \<Rightarrow> world \<Rightarrow> bool \<times> world" where
  "IsUsable E ct w =
     (case now E w of (t, w') \<Rightarrow>
        (if t > ExpiresAt (Token ct) then False else Available ct > 0, w'))"

section \<open>Token pool manager\<close>

definition generateConfigOrder :: "env \<Rightarrow> AuthConfig list \<Rightarrow> world \<Rightarrow> string list \<times> world" where
  "generateConfigOrder E cfgs w =
     (let order = map (TokenCacheKeyFormat E) [0..<length cfgs]
      in (order, logmsg (LogGenerateOrder (length cfgs) order) w))"

definition NewSimpleTokenCache :: "duration \<Rightarrow> SimpleTokenCache" where
  "NewSimpleTokenCache d = \<lparr>tokens = Map.empty, ttl = d\<rparr>"

definition NewTokenManager :: "env \<Rightarrow> AuthConfig list \<Rightarrow> world \<Rightarrow> TokenManager \<times> world" where
  "NewTokenManager E cfgs w =
     (case generateConfigOrder E cfgs w of (order, w1) \<Rightarrow>
        (\<lparr>cache = NewSimpleTokenCache (TokenCacheTTL E), configs = cfgs, lastRefresh = zeroTime,
          configOrder = order, currentIndex = 0, exhausted = {}\<rparr>,
         logmsg (LogManagerInit (length cfgs) (length order)) w1))"

text \<open>\<open>refreshSingleTokenByIndex\<close>: the result is the returned \<open>error\<close>
  (\<open>None\<close> is \<open>nil\<close>). \<open>available\<close> starts at the zero value and stays
  there when the usage check fails.\<close>

definition refreshSingleTokenByIndex ::
  "env \<Rightarrow> nat \<Rightarrow> TokenManager \<times> world \<Rightarrow> error option \<times> TokenManager \<times> world" where
  "refreshSingleTokenByIndex E index s =
     (case s of (tm, w) \<Rightarrow>
        if index \<ge> length (configs tm) then (Some ErrIndexOutOfRange, tm, w)
        else
          let cfg = configs tm ! index in
          if Disabled cfg then (Some ErrTokenDisabled, tm, w)
          else
            (case callRefresh E cfg w of
               (Inl err, w1) \<Rightarrow> (Some (ErrRefreshFailed err), tm, w1)
             | (Inr token, w1) \<Rightarrow>
                 (case callUsage E token w1 of (checked, w2) \<Rightarrow>
                    (case (case checked of
                             Inr usage \<Rightarrow> (Some usage, CalculateAvailableCount usage, w2)
                           | Inl checkErr \<Rightarrow> (None, 0, logmsg (LogUsageCheckFailed checkErr) w2))
                     of (usageInfo, available, w3) \<Rightarrow>
                       let cacheKey = TokenCacheKeyFormat E index in
                       (case now E w3 of (t, w4) \<Rightarrow>
                          (None,
                           tm\<lparr>cache := (cache tm)\<lparr>tokens := (tokens (cache tm))(cacheKey \<mapsto>
                              \<lparr>Token = token, UsageInfo = usageInfo, CachedAt = t,
                               LastUsed = zeroTime, Available = available\<rparr>)\<rparr>\<rparr>,
                           logmsg (LogCacheUpdated cacheKey available) w4))))))"

text \<open>\<open>refreshCacheUnlocked\<close>: the loop \<open>for i := range tm.configs\<close> over the
  indices, a failure logged and the loop going on.\<close>

fun refreshEach :: "env \<Rightarrow> nat list \<Rightarrow> TokenManager \<times> world \<Rightarrow> TokenManager \<times> world" where
  "refreshEach E [] s = s"
| "refreshEach E (i # rest) s =
     (case refreshSingleTokenByIndex E i s of
        (Some err, tm, w) \<Rightarrow> refreshEach E rest (tm, logmsg (LogRefreshIndexFailed i err) w)
      | (None, tm, w) \<Rightarrow> refreshEach E rest (tm, w))"

definition refreshCacheUnlocked ::
  "env \<Rightarrow> TokenManager \<times> world \<Rightarrow> error option \<times> TokenManager \<times> world" where
  "refreshCacheUnlocked E s =
     (case s of (tm, w) \<Rightarrow>
        (case refreshEach E [0..<length (configs tm)] (tm, logmsg LogRefreshAllStart w) of
           (tm1, w1) \<Rightarrow>
             (case now E w1 of (t, w2) \<Rightarrow> (None, tm1\<lparr>lastRefresh := t\<rparr>, w2))))"

text \<open>What \<open>selectBestTokenUnlocked\<close> hands back: the entry it points at together
  with the key the entry is cached under, \<open>nil\<close>, or a runtime panic (an index out
  of range, a nil pointer).\<close>

datatype selection = Selected string CachedToken | NoToken | Panicked

datatype step = Continue | Return selection

definition markExhausted :: "string \<Rightarrow> TokenManager \<Rightarrow> TokenManager" where
  "markExhausted key tm =
     tm\<lparr>exhausted := insert key (exhausted tm),
        currentIndex := (currentIndex tm + 1) mod length (configOrder tm)\<rparr>"

definition switchNext :: "string \<Rightarrow> TokenManager \<times> world \<Rightarrow> step \<times> TokenManager \<times> world" where
  "switchNext key s =
     (case s of (tm, w) \<Rightarrow>
        let tm' = markExhausted key tm
        in (Continue, tm', logmsg (LogSwitchNext key (currentIndex tm')) w))"

definition refreshFailed ::
  "string \<Rightarrow> error \<Rightarrow> TokenManager \<times> world \<Rightarrow> step \<times> TokenManager \<times> world" where
  "refreshFailed key err s =
     (case s of (tm, w) \<Rightarrow>
        (Continue, markExhausted key tm, logmsg (LogRefreshFailed key err) w))"

definition checkUsable ::
  "env \<Rightarrow> string \<Rightarrow> CachedToken \<Rightarrow> TokenManager \<times> world \<Rightarrow> step \<times> TokenManager \<times> world" where
  "checkUsable E key cached s =
     (case s of (tm, w) \<Rightarrow>
        (case IsUsable E cached w of (usable, w') \<Rightarrow>
           if usable
           then (Return (Selected key cached), tm,
                 logmsg (LogSelected key (currentIndex tm) (Available cached)) w')
           else switchNext key (tm, w')))"

text \<open>One pass through the body of the rotation loop.\<close>

definition attempt :: "env \<Rightarrow> TokenManager \<times> world \<Rightarrow> step \<times> TokenManager \<times> world" where
  "attempt E s =
     (case s of (tm, w) \<Rightarrow>
        if length (configOrder tm) \<le> currentIndex tm then (Return Panicked, tm, w)
        else
          let currentKey = configOrder tm ! currentIndex tm in
          (case tokens (cache tm) currentKey of
             Some cached \<Rightarrow>
               (case since E (CachedAt cached) w of (age, w1) \<Rightarrow>
                  if age > ttl (cache tm) then
                    (case refreshSingleTokenByIndex E (currentIndex tm) (tm, w1) of
                       (Some err, s2) \<Rightarrow> refreshFailed currentKey err s2
                     | (None, tm2, w2) \<Rightarrow>
                         (case tokens (cache tm2) currentKey of
                            None \<Rightarrow> (Return Panicked, tm2, w2)
                          | Some cached' \<Rightarrow> checkUsable E currentKey cached' (tm2, w2)))
                  else checkUsable E currentKey cached (tm, w1))
           | None \<Rightarrow>
               (case refreshSingleTokenByIndex E (currentIndex tm) (tm, w) of
                  (Some err, s2) \<Rightarrow> refreshFailed currentKey err s2
                | (None, tm2, w2) \<Rightarrow>
                    (case tokens (cache tm2) currentKey of
                       None \<Rightarrow> switchNext currentKey (tm2, w2)
                     | Some cached' \<Rightarrow> checkUsable E currentKey cached' (tm2, w2)))))"

function selectLoop :: "env \<Rightarrow> nat \<Rightarrow> TokenManager \<times> world \<Rightarrow> selection \<times> TokenManager \<times> world" where
  "selectLoop E attempts (tm, w) =
     (if attempts < length (configOrder tm) then
        (case attempt E (tm, w) of
           (Return r, s') \<Rightarrow> (r, s')
         | (Continue, s') \<Rightarrow> selectLoop E (Suc attempts) s')
      else (NoToken, tm,
            logmsg (LogAllUnavailable (length (configOrder tm)) (card (exhausted tm))) w))"
  by pat_completeness auto
termination
proof (relation "measure (\<lambda>(E, attempts, tm, w). length (configOrder tm) - attempts)")
  show "wf (measure (\<lambda>(E, attempts, tm, w). length (configOrder tm) - attempts))"
    by simp
next
  fix E :: env and attempts :: nat and tm :: TokenManager and w :: world
    and x :: step and s' :: "TokenManager \<times> world"
  assume lt: "attempts < length (configOrder tm)"
    and x: "(x, s') = attempt E (tm, w)" and c: "x = Continue"
  have keep: "configOrder t' = configOrder t"
    if "refreshSingleTokenByIndex E i (t, v) = (r, t', v')" for i t v r t' v'
    using that
    by (auto simp: refreshSingleTokenByIndex_def Let_def split: if_splits prod.splits sum.splits)
  have sw: "configOrder t' = configOrder t"
    if "switchNext k (t, v) = (r, t', v')" for k t v r t' v'
    using that by (auto simp: switchNext_def markExhausted_def Let_def)
  have rf: "configOrder t' = configOrder t"
    if "refreshFailed k e (t, v) = (r, t', v')" for k e t v r t' v'
    using that by (auto simp: refreshFailed_def markExhausted_def)
  have cu: "configOrder t' = configOrder t"
    if "checkUsable E k ct (t, v) = (r, t', v')" for k ct t v r t' v'
    using that by (auto simp: checkUsable_def split: prod.splits if_splits dest: sw)
  have "configOrder t' = configOrder tm" if "attempt E (tm, w) = (r, t', v')" for r t' v'
    using that
  proof -
    have via: "configOrder t' = configOrder tm"
      if "refreshSingleTokenByIndex E i (tm, v) = (e, t2, v2)"
        and "configOrder t' = configOrder t2" for i v e t2 v2
      using keep [OF that(1)] that(2) by simp
    show ?thesis
      using that
      by (auto simp: attempt_def Let_def split: if_splits option.splits prod.splits
          dest!: sw rf cu intro: via)
  qed
  then have "configOrder (fst s') = configOrder tm"
    using x by (cases s') (metis fst_conv)
  with lt show "((E, Suc attempts, s'), (E, attempts, tm, w))
      \<in> measure (\<lambda>(E, attempts, tm, w). length (configOrder tm) - attempts)"
    by (cases s') auto
qed

text \<open>The fallback when there is no rotation order: the cache map is ranged over in
  the order the runtime picks.\<close>

fun scanCache ::
  "env \<Rightarrow> SimpleTokenCache \<Rightarrow> string list \<Rightarrow> world \<Rightarrow> selection \<times> world" where
  "scanCache E c [] w = (NoToken, w)"
| "scanCache E c (key # rest) w =
     (case tokens c key of
        None \<Rightarrow> scanCache E c rest w
      | Some cached \<Rightarrow>
          (case since E (CachedAt cached) w of (age, w1) \<Rightarrow>
             if age \<le> ttl c then
               (case IsUsable E cached w1 of (usable, w2) \<Rightarrow>
                  if usable
                  then (Selected key cached, logmsg (LogSelectedNoOrder key (Available cached)) w2)
                  else scanCache E c rest w2)
             else scanCache E c rest w1))"

definition selectBestTokenUnlocked ::
  "env \<Rightarrow> TokenManager \<times> world \<Rightarrow> selection \<times> TokenManager \<times> world" where
  "selectBestTokenUnlocked E s =
     (case s of (tm, w) \<Rightarrow>
        if length (configOrder tm) = 0 then
          (case scanCache E (cache tm) (rangeOrder E (tokens (cache tm))) w of
             (r, w') \<Rightarrow> (r, tm, w'))
        else selectLoop E 0 (tm, w))"

text \<open>\<open>getBestToken\<close>: the selected pointer is the entry cached under the selected
  key, so the two writes through it are a write to that cache slot.\<close>

definition getBestToken ::
  "env \<Rightarrow> TokenManager \<times> world \<Rightarrow> (error + TokenInfo) \<times> TokenManager \<times> world" where
  "getBestToken E s =
     (case selectBestTokenUnlocked E s of
        (NoToken, tm, w) \<Rightarrow> (Inl ErrNoUsableToken, tm, w)
      | (Panicked, tm, w) \<Rightarrow> (Inl RuntimePanic, tm, w)
      | (Selected key bestToken, tm, w) \<Rightarrow>
          (case now E w of (t, w') \<Rightarrow>
             let touched = bestToken\<lparr>LastUsed := t\<rparr>;
                 used = (if Available touched > 0
                         then touched\<lparr>Available := Available touched - 1\<rparr>
                         else touched)
             in (Inr (Token used),
                 tm\<lparr>cache := (cache tm)\<lparr>tokens := (tokens (cache tm))(key \<mapsto> used)\<rparr>\<rparr>,
                 w')))"

section \<open>Credential loading\<close>

definition deprecatedVars :: "string list" where
  "deprecatedVars =
     [''REFRESH_TOKEN'', ''AWS_REFRESHTOKEN'', ''IDC_REFRESH_TOKEN'', ''BULK_REFRESH_TOKENS'']"

fun warnDeprecated :: "env \<Rightarrow> string list \<Rightarrow> world \<Rightarrow> world" where
  "warnDeprecated E [] w = w"
| "warnDeprecated E (envVar # rest) w =
     warnDeprecated E rest
       (if Getenv E envVar \<noteq> []
        then logmsg LogMigrationExample (logmsg (LogDeprecatedEnv envVar) w)
        else w)"

definition parseJSONConfig :: "env \<Rightarrow> string \<Rightarrow> error + AuthConfig list" where
  "parseJSONConfig E jsonData =
     (case UnmarshalList E jsonData of
        Inr cfgs \<Rightarrow> Inr cfgs
      | Inl _ \<Rightarrow>
          (case UnmarshalObject E jsonData of
             Inl err \<Rightarrow> Inl (ErrInvalidJSON err)
           | Inr single \<Rightarrow> Inr [single]))"

text \<open>The loop of \<open>processConfigs\<close>; the empty string is the empty list of bytes.\<close>

fun processLoop :: "AuthConfig list \<Rightarrow> AuthConfig list \<Rightarrow> AuthConfig list" where
  "processLoop [] validConfigs = validConfigs"
| "processLoop (config # rest) validConfigs =
     (if RefreshToken config = [] then processLoop rest validConfigs
      else
        let config = (if AuthType config = [] then config\<lparr>AuthType := AuthMethodSocial\<rparr>
                      else config)
        in if AuthType config = AuthMethodIdC
              \<and> (ClientID config = [] \<or> ClientSecret config = [])
           then processLoop rest validConfigs
           else if Disabled config then processLoop rest validConfigs
           else processLoop rest (validConfigs @ [config]))"

definition processConfigs :: "AuthConfig list \<Rightarrow> AuthConfig list" where
  "processConfigs cfgs = processLoop cfgs []"

definition loadConfigs :: "env \<Rightarrow> world \<Rightarrow> (error + AuthConfig list) \<times> world" where
  "loadConfigs E w =
     (let w1 = warnDeprecated E deprecatedVars w;
          jsonData = Getenv E ''KIRO_AUTH_TOKEN''
      in if jsonData = [] then (Inl ErrEnvMissing, w1)
         else
           (case (if IsRegularFile E jsonData
                  then (case ReadFile E jsonData of
                          Inl err \<Rightarrow> Inl (ErrReadConfigFile err jsonData)
                        | Inr content \<Rightarrow> Inr (content, logmsg (LogLoadFromFile jsonData) w1))
                  else Inr (jsonData, logmsg LogLoadFromEnv w1))
            of Inl err \<Rightarrow> (Inl err, w1)
             | Inr (configData, w2) \<Rightarrow>
                 (case parseJSONConfig E configData of
                    Inl err \<Rightarrow> (Inl (ErrParseConfig err), w2)
                  | Inr cfgs \<Rightarrow>
                      if length cfgs = 0 then (Inl ErrConfigEmpty, w2)
                      else
                        let validConfigs = processConfigs cfgs
                        in if length validConfigs = 0 then (Inl ErrNoValidConfig, w2)
                           else (Inr validConfigs,
                                 logmsg (LogConfigsLoaded (length cfgs) (length validConfigs)) w2))))"

text \<open>The loop of \<open>LoadAccountsFromCSV\<close> over \<open>records[1:]\<close>; \<open>i\<close> is the loop
  index, so the warning names line \<open>i + 2\<close> of the file.\<close>

fun csvLoop ::
  "env \<Rightarrow> nat \<Rightarrow> string list list \<Rightarrow> AuthConfig list \<Rightarrow> world \<Rightarrow> AuthConfig list \<times> world" where
  "csvLoop E i [] cfgs w = (cfgs, w)"
| "csvLoop E i (record # rest) cfgs w =
     (if length record < 4 then csvLoop E (Suc i) rest cfgs (logmsg (LogSkipCSVRow (i + 2)) w)
      else
        let enabled = (ToLower E (TrimSpace E (record ! 0)) = ''true'')
        in if \<not> enabled then csvLoop E (Suc i) rest cfgs w
           else csvLoop E (Suc i) rest
                  (cfgs @ [\<lparr>AuthType = AuthMethodIdC,
                             RefreshToken = TrimSpace E (record ! 1),
                             ClientID = TrimSpace E (record ! 2),
                             ClientSecret = TrimSpace E (record ! 3),
                             Disabled = False\<rparr>]) w)"

definition LoadAccountsFromCSV ::
  "env \<Rightarrow> string \<Rightarrow> world \<Rightarrow> (error + AuthConfig list) \<times> world" where
  "LoadAccountsFromCSV E filePath w =
     (case ReadCSV E filePath of
        OpenFails err \<Rightarrow> (Inl (ErrOpenCSV err), w)
      | ReadAllFails err \<Rightarrow> (Inl (ErrReadCSV err), w)
      | Records records \<Rightarrow>
          if length records < 2 then (Inl ErrCSVEmpty, w)
          else
            (case csvLoop E 0 (drop 1 records) [] w of
               (cfgs, w1) \<Rightarrow> (Inr cfgs, logmsg (LogCSVLoaded (length cfgs)) w1)))"

definition AddAccountsFromCSV ::
  "env \<Rightarrow> string \<Rightarrow> TokenManager \<times> world \<Rightarrow> error option \<times> TokenManager \<times> world" where
  "AddAccountsFromCSV E filePath s =
     (case s of (tm, w) \<Rightarrow>
        (case LoadAccountsFromCSV E filePath w of
           (Inl err, w1) \<Rightarrow> (Some err, tm, w1)
         | (Inr newConfigs, w1) \<Rightarrow>
             let tm1 = tm\<lparr>configs := configs tm @ newConfigs\<rparr> in
             (case generateConfigOrder E (configs tm1) w1 of (order, w2) \<Rightarrow>
                let tm2 = tm1\<lparr>configOrder := order\<rparr>;
                    w3 = logmsg (LogCSVAdded (length newConfigs) (length (configs tm2))) w2
                in refreshCacheUnlocked E (tm2, w3))))"

section \<open>Service facade\<close>

text \<open>The field \<open>configs\<close> of \<open>AuthService\<close> is \<open>serviceConfigs\<close> here: the
  name \<open>configs\<close> is the pool's field.\<close>

record AuthService =
  tokenManager :: TokenManager
  serviceConfigs :: "AuthConfig list"

text \<open>The tail of \<open>NewAuthService\<close>, from the check that some credential was
  loaded to the warm-up selection. A panic of the warm-up is not recovered, so it
  ends the construction.\<close>

definition buildService ::
  "env \<Rightarrow> AuthConfig list \<Rightarrow> world \<Rightarrow> (error + AuthService) \<times> world" where
  "buildService E cfgs w =
     (if length cfgs = 0 then (Inl ErrNoTokenConfig, w)
      else
        (case NewTokenManager E cfgs w of (tm, w1) \<Rightarrow>
           (case getBestToken E (tm, w1) of (warmup, tm', w2) \<Rightarrow>
              if warmup = Inl RuntimePanic then (Inl RuntimePanic, w2)
              else
                let w3 = (case warmup of
                            Inl warmupErr \<Rightarrow> logmsg (LogWarmupFailed warmupErr) w2
                          | Inr _ \<Rightarrow> w2)
                in (Inr \<lparr>tokenManager = tm', serviceConfigs = cfgs\<rparr>,
                    logmsg (LogServiceCreated (length cfgs)) w3))))"

definition NewAuthService :: "env \<Rightarrow> world \<Rightarrow> (error + AuthService) \<times> world" where
  "NewAuthService E w =
     (case loadConfigs E (logmsg LogCreateService w) of
        (Inl err, w1) \<Rightarrow>
          (case LoadAccountsFromCSV E ''accounts.csv'' w1 of
             (Inr csvConfigs, w2) \<Rightarrow>
               if length csvConfigs > 0
               then buildService E csvConfigs (logmsg (LogServiceCSV (length csvConfigs)) w2)
               else (Inl (ErrLoadConfig err), w2)
           | (Inl csvErr, w2) \<Rightarrow> (Inl (ErrLoadConfig err), w2))
      | (Inr cfgs, w1) \<Rightarrow>
          (case LoadAccountsFromCSV E ''accounts.csv'' w1 of
             (Inr csvConfigs, w2) \<Rightarrow>
               buildService E (cfgs @ csvConfigs)
                 (logmsg (LogServiceCSVExtra (length csvConfigs)) w2)
           | (Inl csvErr, w2) \<Rightarrow> buildService E cfgs w2))"

section \<open>Reading the traces\<close>

text \<open>The keys of the failed attempts of the rotation loop, as the log shows them: a
  failed refresh and an unusable entry each write one line naming the key.\<close>

fun attemptedKey :: "log_event \<Rightarrow> string option" where
  "attemptedKey (LogRefreshFailed key err) = Some key"
| "attemptedKey (LogSwitchNext key next) = Some key"
| "attemptedKey _ = None"

definition failedAttempts :: "log_event list \<Rightarrow> string list" where
  "failedAttempts ls = List.map_filter attemptedKey ls"



text \<open>How each pass of the full refresh ended, as the log shows it: a warning with
  the index, or the line of the cache update with the key.\<close>

fun refreshOutcome :: "log_event \<Rightarrow> (nat + string) option" where
  "refreshOutcome (LogRefreshIndexFailed i err) = Some (Inl i)"
| "refreshOutcome (LogCacheUpdated key available) = Some (Inr key)"
| "refreshOutcome _ = None"

definition refreshOutcomes :: "log_event list \<Rightarrow> (nat + string) list" where
  "refreshOutcomes ls = List.map_filter refreshOutcome ls"

section \<open>The loaders, as the interface describes them\<close>

text \<open>A data row gives a credential when it has four columns and its first column,
  trimmed and lower-cased, reads \<open>true\<close>; the credential takes columns two to four,
  trimmed.\<close>

definition enabledRow :: "env \<Rightarrow> string list \<Rightarrow> bool" where
  "enabledRow E r = (4 \<le> length r \<and> ToLower E (TrimSpace E (r ! 0)) = ''true'')"

definition rowConfig :: "env \<Rightarrow> string list \<Rightarrow> AuthConfig" where
  "rowConfig E r =
     \<lparr>AuthType = AuthMethodIdC, RefreshToken = TrimSpace E (r ! 1),
      ClientID = TrimSpace E (r ! 2), ClientSecret = TrimSpace E (r ! 3), Disabled = False\<rparr>"



text \<open>The credentials a CSV file gives and the lines it is warned about, read off
  the records: the header is line 1, so the first data row is line 2.\<close>

definition csvConfigs :: "env \<Rightarrow> string list list \<Rightarrow> AuthConfig list" where
  "csvConfigs E records = map (rowConfig E) (filter (enabledRow E) (drop 1 records))"


section \<open>Invariants of the refresh pass and of the rotation loop\<close>


text \<open>The key \<open>i\<close> positions after the cursor, going round the rotation
  order.\<close>

definition rotationKey :: "TokenManager \<Rightarrow> nat \<Rightarrow> string" where
  "rotationKey tm i = configOrder tm ! ((currentIndex tm + i) mod length (configOrder tm))"

text \<open>What one pass of the rotation loop does, starting from pool \<open>tm\<close> and
  effects \<open>w\<close>: either it gives up on the key under the cursor (the key joins
  \<open>exhausted\<close>, the cursor moves on by one modulo the length, one line naming the
  key is logged), or it returns the entry cached under that key, found usable at the
  last clock reading, with cursor and \<open>exhausted\<close> untouched. It never panics and
  never returns \<open>nil\<close> by itself.\<close>

definition attemptOk ::
  "env \<Rightarrow> TokenManager \<Rightarrow> world \<Rightarrow> step \<Rightarrow> TokenManager \<Rightarrow> world \<Rightarrow> bool" where
  "attemptOk E tm w st tm' w' =
     (configOrder tm' = configOrder tm \<and> configs tm' = configs tm
      \<and> (case st of
            Continue \<Rightarrow>
              currentIndex tm' = (currentIndex tm + 1) mod length (configOrder tm)
              \<and> exhausted tm' = insert (rotationKey tm 0) (exhausted tm)
              \<and> failedAttempts (logs w') = failedAttempts (logs w) @ [rotationKey tm 0]
          | Return sel \<Rightarrow>
              (case sel of
                 Selected key entry \<Rightarrow>
                   key = rotationKey tm 0 \<and> currentIndex tm' = currentIndex tm
                   \<and> exhausted tm' = exhausted tm
                   \<and> failedAttempts (logs w') = failedAttempts (logs w)
                   \<and> tokens (cache tm') key = Some entry
                   \<and> 0 < clockReads w'
                   \<and> fst (IsUsable E entry (w'\<lparr>clockReads := clockReads w' - 1\<rparr>))
               | NoToken \<Rightarrow> False
               | Panicked \<Rightarrow> False)))"

text \<open>What the rotation loop does when it may still make \<open>n\<close> passes: it gives
  up on the \<open>j\<close> keys that follow the cursor, one after the other, and then either
  has used up its passes (\<open>j = n\<close>) or returns the usable entry of the next
  key.\<close>

definition loopOk ::
  "env \<Rightarrow> nat \<Rightarrow> TokenManager \<Rightarrow> world \<Rightarrow> selection \<Rightarrow> TokenManager \<Rightarrow> world \<Rightarrow> nat \<Rightarrow> bool" where
  "loopOk E n tm w sel tm' w' j =
     (j \<le> n \<and> configOrder tm' = configOrder tm \<and> configs tm' = configs tm
      \<and> currentIndex tm' = (currentIndex tm + j) mod length (configOrder tm)
      \<and> failedAttempts (logs w') = failedAttempts (logs w) @ map (rotationKey tm) [0..<j]
      \<and> exhausted tm' = exhausted tm \<union> rotationKey tm ` {0..<j}
      \<and> (case sel of
            NoToken \<Rightarrow> j = n
          | Panicked \<Rightarrow> False
          | Selected key entry \<Rightarrow>
              j < n \<and> key = rotationKey tm j \<and> tokens (cache tm') key = Some entry
              \<and> 0 < clockReads w'
              \<and> fst (IsUsable E entry (w'\<lparr>clockReads := clockReads w' - 1\<rparr>))))"

text \<open>A credential as the data model wants it in the pool.\<close>

definition validConfig :: "AuthConfig \<Rightarrow> bool" where
  "validConfig c =
     (RefreshToken c \<noteq> [] \<and> \<not> Disabled c
      \<and> (AuthType c \<noteq> AuthMethodIdC \<or> (ClientID c \<noteq> [] \<and> ClientSecret c \<noteq> [])))"

section \<open>Sample inputs\<close>

text \<open>A concrete environment for running the definitions: keys \<open>token_0\<close>,
  \<open>token_1\<close>, ...; a clock that advances by one per reading from 100; an exchange
  that refuses the refresh secret \<open>revoked\<close> and otherwise grants a token expiring
  at 3600; a usage check that times out for the secret \<open>unmetered\<close> and otherwise
  reports 5 credits left; ASCII versions of \<open>strings.TrimSpace\<close> and
  \<open>strings.ToLower\<close>.\<close>

fun decimal :: "nat \<Rightarrow> string" where
  "decimal n =
     (if n < 10 then [''0123456789'' ! n]
      else decimal (n div 10) @ [''0123456789'' ! (n mod 10)])"

definition sampleKey :: "nat \<Rightarrow> string" where
  "sampleKey i = ''token_'' @ decimal i"

definition sampleClock :: "nat \<Rightarrow> time" where
  "sampleClock k = 100 + int k"

definition sampleUsage :: UsageLimits where
  "sampleUsage =
     \<lparr>UsageBreakdownList =
        [\<lparr>ResourceType = ''AGENTIC_REQUEST'', FreeTrial = None,
          UsageLimitWithPrecision = 10, CurrentUsageWithPrecision = 0\<rparr>,
         \<lparr>ResourceType = ''CREDIT'',
          FreeTrial = Some \<lparr>FreeTrialStatus = ''ACTIVE'', ftUsageLimitWithPrecision = 3,
                             ftCurrentUsageWithPrecision = 1\<rparr>,
          UsageLimitWithPrecision = 50, CurrentUsageWithPrecision = 47\<rparr>]\<rparr>"

definition sampleExchange :: "nat \<Rightarrow> AuthConfig \<Rightarrow> string + TokenInfo" where
  "sampleExchange k cfg =
     (if RefreshToken cfg = ''revoked'' then Inl ''invalid_grant''
      else Inr \<lparr>AccessToken = ''at-'' @ RefreshToken cfg, ExpiresAt = 3600\<rparr>)"

definition sampleCheck :: "nat \<Rightarrow> TokenInfo \<Rightarrow> string + UsageLimits" where
  "sampleCheck k tok =
     (if AccessToken tok = ''at-unmetered'' then Inl ''timeout'' else Inr sampleUsage)"

definition isSpace :: "char \<Rightarrow> bool" where
  "isSpace c = (c \<in> set [CHR 0x09, CHR 0x0A, CHR 0x0B, CHR 0x0C, CHR 0x0D, CHR 0x20])"

definition asciiTrimSpace :: "string \<Rightarrow> string" where
  "asciiTrimSpace s = rev (dropWhile isSpace (rev (dropWhile isSpace s)))"

definition asciiLower :: "char \<Rightarrow> char" where
  "asciiLower c =
     (case map_of (zip ''ABCDEFGHIJKLMNOPQRSTUVWXYZ'' ''abcdefghijklmnopqrstuvwxyz'') c of
        None \<Rightarrow> c
      | Some l \<Rightarrow> l)"

definition asciiToLower :: "string \<Rightarrow> string" where
  "asciiToLower s = map asciiLower s"

definition sampleRecords :: "string list list" where
  "sampleRecords =
     [[''enabled'', ''refreshToken'', ''clientId'', ''clientSecret''],
      [''true'', ''rt1'', ''cid1'', ''csec1''],
      [''false'', ''rt2'', ''cid2'', ''csec2''],
      [''true'', ''rt3'', ''cid3''],
      [''TRUE'', '' rt4 '', ''cid4'', ''csec4'']]"

definition sampleCSV :: "string \<Rightarrow> csv_result" where
  "sampleCSV path =
     (if path = ''accounts.csv'' then Records sampleRecords else OpenFails ''no such file'')"

definition sampleEnv :: env where
  "sampleEnv =
     \<lparr>TokenCacheTTL = 300, TokenCacheKeyFormat = sampleKey, clock = sampleClock,
      refreshSingleToken = sampleExchange, CheckUsageLimits = sampleCheck,
      rangeOrder = (\<lambda>m. filter (\<lambda>k. m k \<noteq> None) (map sampleKey [0..<8])),
      Getenv = (\<lambda>v. []), IsRegularFile = (\<lambda>p. False),
      ReadFile = (\<lambda>p. Inl ''no such file''), UnmarshalList = (\<lambda>d. Inl ''syntax error''),
      UnmarshalObject = (\<lambda>d. Inl ''syntax error''), ReadCSV = sampleCSV,
      TrimSpace = asciiTrimSpace, ToLower = asciiToLower\<rparr>"

definition freshWorld :: world where
  "freshWorld = \<lparr>clockReads = 0, refreshCalls = [], usageCalls = [], logs = []\<rparr>"

definition socialConfig :: "string \<Rightarrow> AuthConfig" where
  "socialConfig secret =
     \<lparr>AuthType = AuthMethodSocial, RefreshToken = secret, ClientID = [], ClientSecret = [],
      Disabled = False\<rparr>"

definition sampleEntry :: "real \<Rightarrow> time \<Rightarrow> time \<Rightarrow> CachedToken" where
  "sampleEntry uses cachedAt expiresAt =
     \<lparr>Token = \<lparr>AccessToken = ''at-cached'', ExpiresAt = expiresAt\<rparr>, UsageInfo = None,
      CachedAt = cachedAt, LastUsed = zeroTime, Available = uses\<rparr>"

definition sampleManager :: "AuthConfig list \<Rightarrow> (string \<rightharpoonup> CachedToken) \<Rightarrow> TokenManager" where
  "sampleManager cfgs entries =
     \<lparr>cache = \<lparr>tokens = entries, ttl = 300\<rparr>, configs = cfgs, lastRefresh = zeroTime,
      configOrder = map sampleKey [0..<length cfgs], currentIndex = 0, exhausted = {}\<rparr>"

text \<open>Credential lists: one with a refused, an unmetered and a disabled credential;
  one with a refused and a good credential.\<close>

definition disabledConfig :: AuthConfig where
  "disabledConfig = (socialConfig ''parked'')\<lparr>Disabled := True\<rparr>"

definition mixedConfigs :: "AuthConfig list" where
  "mixedConfigs = [socialConfig ''revoked'', socialConfig ''unmetered'', disabledConfig]"

definition twoConfigs :: "AuthConfig list" where
  "twoConfigs = [socialConfig ''revoked'', socialConfig ''good'']"




definition headerOnlyEnv :: env where
  "headerOnlyEnv =
     sampleEnv\<lparr>ReadCSV :=
       (\<lambda>path. Records [[''enabled'', ''refreshToken'', ''clientId'', ''clientSecret'']])\<rparr>"

definition blankRowEnv :: env where
  "blankRowEnv =
     sampleEnv\<lparr>ReadCSV :=
       (\<lambda>path. Records [[''enabled'', ''refreshToken'', ''clientId'', ''clientSecret''],
                       [''true'', [], [], []]])\<rparr>"

text \<open>Pools whose first key is cached with 5 uses and a token valid until 3600: one
  cached long ago (at -1000, so older than the TTL of 300 at every reading of the
  sample clock), one cached at 100.\<close>

definition staleManager :: TokenManager where
  "staleManager = sampleManager twoConfigs [sampleKey 0 \<mapsto> sampleEntry 5 (- 1000) 3600]"

definition freshManager :: TokenManager where
  "freshManager = sampleManager twoConfigs [sampleKey 0 \<mapsto> sampleEntry 5 100 3600]"

text \<open>A snapshot that leaves half a credit, and an environment whose usage check
  reports it.\<close>

definition halfUsage :: UsageLimits where
  "halfUsage =
     \<lparr>UsageBreakdownList =
        [\<lparr>ResourceType = ''CREDIT'', FreeTrial = None,
          UsageLimitWithPrecision = 50, CurrentUsageWithPrecision = 99 / 2\<rparr>]\<rparr>"

definition halfEnv :: env where
  "halfEnv = sampleEnv\<lparr>CheckUsageLimits := (\<lambda>k tok. Inr halfUsage)\<rparr>"

section \<open>Availability model: properties\<close>






section \<open>Cache entries: properties\<close>

lemma IsUsable_eq:
  "IsUsable E ct w =
     (clock E (clockReads w) \<le> ExpiresAt (Token ct) \<and> 0 < Available ct,
      w\<lparr>clockReads := Suc (clockReads w)\<rparr>)"
  by (simp add: IsUsable_def now_def not_less)

text \<open>
  C3, as stated, fails at the instant of expiry: with the clock showing exactly
  \<open>ExpiresAt\<close> and one use left, \<open>IsUsable\<close> answers true
  (\<open>time.Now().After(ExpiresAt)\<close> is false when the two instants are equal).
\<close>

theorem IsUsable_at_expiry_counterexample:
  "clock sampleEnv (clockReads freshWorld) = ExpiresAt (Token (sampleEntry 1 0 100))
   \<and> fst (IsUsable sampleEnv (sampleEntry 1 0 100) freshWorld)"
  by (simp add: IsUsable_def now_def sampleEnv_def sampleClock_def freshWorld_def sampleEntry_def)

text \<open>
  C3, amended. \<open>IsUsable\<close> answers true exactly when the clock reading it takes is
  not after \<open>ExpiresAt\<close> (so also at the instant of expiry) and \<open>Available\<close> is
  positive. Replacing every other field of the entry (the access token, the usage
  snapshot, \<open>CachedAt\<close>, \<open>LastUsed\<close>) leaves the answer unchanged.
\<close>

theorem IsUsable_iff:
  "(fst (IsUsable E ct w)
      \<longleftrightarrow> clock E (clockReads w) \<le> ExpiresAt (Token ct) \<and> 0 < Available ct)
   \<and> fst (IsUsable E
        (ct\<lparr>Token := (Token ct)\<lparr>AccessToken := a\<rparr>, UsageInfo := u, CachedAt := c,
            LastUsed := l\<rparr>) w)
       = fst (IsUsable E ct w)"
  by (simp add: IsUsable_eq)

section \<open>Refreshing one credential\<close>

lemma refresh_out_of_range:
  "length (configs tm) \<le> i \<Longrightarrow>
   refreshSingleTokenByIndex E i (tm, w) = (Some ErrIndexOutOfRange, tm, w)"
  by (simp add: refreshSingleTokenByIndex_def)

lemma refresh_disabled:
  "i < length (configs tm) \<Longrightarrow> Disabled (configs tm ! i) \<Longrightarrow>
   refreshSingleTokenByIndex E i (tm, w) = (Some ErrTokenDisabled, tm, w)"
  by (simp add: refreshSingleTokenByIndex_def)

lemma refresh_exchange_fails:
  "i < length (configs tm) \<Longrightarrow> \<not> Disabled (configs tm ! i) \<Longrightarrow>
   refreshSingleToken E (length (refreshCalls w)) (configs tm ! i) = Inl err \<Longrightarrow>
   refreshSingleTokenByIndex E i (tm, w) =
     (Some (ErrRefreshFailed err), tm, w\<lparr>refreshCalls := refreshCalls w @ [configs tm ! i]\<rparr>)"
  by (simp add: refreshSingleTokenByIndex_def callRefresh_def)

lemma refresh_usage_fails:
  "i < length (configs tm) \<Longrightarrow> \<not> Disabled (configs tm ! i) \<Longrightarrow>
   refreshSingleToken E (length (refreshCalls w)) (configs tm ! i) = Inr token \<Longrightarrow>
   CheckUsageLimits E (length (usageCalls w)) token = Inl checkErr \<Longrightarrow>
   refreshSingleTokenByIndex E i (tm, w) =
     (None,
      tm\<lparr>cache := (cache tm)\<lparr>tokens := (tokens (cache tm))(TokenCacheKeyFormat E i \<mapsto>
         \<lparr>Token = token, UsageInfo = None, CachedAt = clock E (clockReads w),
          LastUsed = zeroTime, Available = 0\<rparr>)\<rparr>\<rparr>,
      w\<lparr>clockReads := Suc (clockReads w),
        refreshCalls := refreshCalls w @ [configs tm ! i],
        usageCalls := usageCalls w @ [token],
        logs := logs w @ [LogUsageCheckFailed checkErr,
                          LogCacheUpdated (TokenCacheKeyFormat E i) 0]\<rparr>)"
  by (simp add: refreshSingleTokenByIndex_def callRefresh_def callUsage_def now_def logmsg_def
      Let_def)

lemma refresh_usage_ok:
  "i < length (configs tm) \<Longrightarrow> \<not> Disabled (configs tm ! i) \<Longrightarrow>
   refreshSingleToken E (length (refreshCalls w)) (configs tm ! i) = Inr token \<Longrightarrow>
   CheckUsageLimits E (length (usageCalls w)) token = Inr usage \<Longrightarrow>
   refreshSingleTokenByIndex E i (tm, w) =
     (None,
      tm\<lparr>cache := (cache tm)\<lparr>tokens := (tokens (cache tm))(TokenCacheKeyFormat E i \<mapsto>
         \<lparr>Token = token, UsageInfo = Some usage, CachedAt = clock E (clockReads w),
          LastUsed = zeroTime, Available = CalculateAvailableCount usage\<rparr>)\<rparr>\<rparr>,
      w\<lparr>clockReads := Suc (clockReads w),
        refreshCalls := refreshCalls w @ [configs tm ! i],
        usageCalls := usageCalls w @ [token],
        logs := logs w @ [LogCacheUpdated (TokenCacheKeyFormat E i)
                            (CalculateAvailableCount usage)]\<rparr>)"
  by (simp add: refreshSingleTokenByIndex_def callRefresh_def callUsage_def now_def logmsg_def
      Let_def)

text \<open>
  C6. \<open>refreshSingleTokenByIndex\<close>: an index out of range, a disabled credential and
  a failed exchange each return an error and leave the pool, hence the cache entry of
  that key, as it was. When the exchange succeeds and the usage check fails, the call
  returns no error and caches, under the key of the index, the new token with
  \<open>Available = 0\<close>: an entry that \<open>IsUsable\<close> rejects whatever the clock shows.
\<close>

theorem refreshSingleTokenByIndex_outcomes:
  "(length (configs tm) \<le> i \<longrightarrow>
      refreshSingleTokenByIndex E i (tm, w) = (Some ErrIndexOutOfRange, tm, w))
   \<and> (i < length (configs tm) \<and> Disabled (configs tm ! i) \<longrightarrow>
      refreshSingleTokenByIndex E i (tm, w) = (Some ErrTokenDisabled, tm, w))
   \<and> (i < length (configs tm) \<and> \<not> Disabled (configs tm ! i)
      \<and> refreshSingleToken E (length (refreshCalls w)) (configs tm ! i) = Inl err \<longrightarrow>
      fst (refreshSingleTokenByIndex E i (tm, w)) = Some (ErrRefreshFailed err)
      \<and> fst (snd (refreshSingleTokenByIndex E i (tm, w))) = tm)
   \<and> (i < length (configs tm) \<and> \<not> Disabled (configs tm ! i)
      \<and> refreshSingleToken E (length (refreshCalls w)) (configs tm ! i) = Inr token
      \<and> CheckUsageLimits E (length (usageCalls w)) token = Inl checkErr \<longrightarrow>
      fst (refreshSingleTokenByIndex E i (tm, w)) = None
      \<and> (\<exists>entry. tokens (cache (fst (snd (refreshSingleTokenByIndex E i (tm, w)))))
                     (TokenCacheKeyFormat E i) = Some entry
            \<and> Token entry = token \<and> Available entry = 0
            \<and> \<not> fst (IsUsable E entry w')))"
  by (simp add: refresh_out_of_range refresh_disabled refresh_exchange_fails
      refresh_usage_fails IsUsable_eq)

theorem refreshSingleTokenByIndex_outcomes_witness:
  "refreshSingleTokenByIndex sampleEnv 3 (sampleManager mixedConfigs Map.empty, freshWorld)
     = (Some ErrIndexOutOfRange, sampleManager mixedConfigs Map.empty, freshWorld)
   \<and> refreshSingleTokenByIndex sampleEnv 2 (sampleManager mixedConfigs Map.empty, freshWorld)
     = (Some ErrTokenDisabled, sampleManager mixedConfigs Map.empty, freshWorld)
   \<and> fst (refreshSingleTokenByIndex sampleEnv 0 (sampleManager mixedConfigs Map.empty, freshWorld))
     = Some (ErrRefreshFailed ''invalid_grant'')
   \<and> fst (snd (refreshSingleTokenByIndex sampleEnv 0
              (sampleManager mixedConfigs Map.empty, freshWorld)))
     = sampleManager mixedConfigs Map.empty
   \<and> fst (refreshSingleTokenByIndex sampleEnv 1 (sampleManager mixedConfigs Map.empty, freshWorld))
     = None
   \<and> (\<exists>entry. tokens (cache (fst (snd (refreshSingleTokenByIndex sampleEnv 1
                     (sampleManager mixedConfigs Map.empty, freshWorld)))))
                 (TokenCacheKeyFormat sampleEnv 1) = Some entry
         \<and> Token entry = \<lparr>AccessToken = ''at-unmetered'', ExpiresAt = 3600\<rparr>
         \<and> Available entry = 0
         \<and> \<not> fst (IsUsable sampleEnv entry freshWorld))"
  using refreshSingleTokenByIndex_outcomes
          [of "sampleManager mixedConfigs Map.empty" 3 sampleEnv freshWorld]
        refreshSingleTokenByIndex_outcomes
          [of "sampleManager mixedConfigs Map.empty" 2 sampleEnv freshWorld]
        refreshSingleTokenByIndex_outcomes
          [of "sampleManager mixedConfigs Map.empty" 0 sampleEnv freshWorld "''invalid_grant''"]
        refreshSingleTokenByIndex_outcomes
          [of "sampleManager mixedConfigs Map.empty" 1 sampleEnv freshWorld _
              "\<lparr>AccessToken = ''at-unmetered'', ExpiresAt = 3600\<rparr>" "''timeout''" freshWorld]
  by (simp add: sampleManager_def mixedConfigs_def disabledConfig_def socialConfig_def
      sampleEnv_def sampleExchange_def sampleCheck_def freshWorld_def)

section \<open>Loading accounts from CSV\<close>








text \<open>
  C10. When the parsed file has fewer than two records (none, or the header alone),
  \<open>LoadAccountsFromCSV\<close> returns the error for an empty file and no list. So when
  the primary source fails and \<open>accounts.csv\<close> is such a file, \<open>NewAuthService\<close>
  fails with the primary source's error: the file does not become the credential
  source.
\<close>

theorem LoadAccountsFromCSV_needs_data_row:
  assumes "ReadCSV E path = Records records" and "length records < 2"
  shows "LoadAccountsFromCSV E path w = (Inl ErrCSVEmpty, w)
       \<and> (path = ''accounts.csv'' \<and> fst (loadConfigs E (logmsg LogCreateService w)) = Inl err
            \<longrightarrow> fst (NewAuthService E w) = Inl (ErrLoadConfig err))"
  using assms
  by (auto simp: LoadAccountsFromCSV_def NewAuthService_def split: prod.splits sum.splits)

theorem LoadAccountsFromCSV_needs_data_row_witness:
  "LoadAccountsFromCSV headerOnlyEnv ''accounts.csv'' freshWorld = (Inl ErrCSVEmpty, freshWorld)
   \<and> fst (NewAuthService headerOnlyEnv freshWorld) = Inl (ErrLoadConfig ErrEnvMissing)"
  using LoadAccountsFromCSV_needs_data_row
          [of headerOnlyEnv "''accounts.csv''"
              "[[''enabled'', ''refreshToken'', ''clientId'', ''clientSecret'']]"
              freshWorld ErrEnvMissing]
  by (simp add: headerOnlyEnv_def sampleEnv_def loadConfigs_def deprecatedVars_def Let_def)

section \<open>Full refresh and hot add\<close>

lemma failedAttempts_append:
  "failedAttempts (xs @ ys) = failedAttempts xs @ failedAttempts ys"
  by (simp add: failedAttempts_def List.map_filter_def)

lemma refreshOutcomes_append:
  "refreshOutcomes (xs @ ys) = refreshOutcomes xs @ refreshOutcomes ys"
  by (simp add: refreshOutcomes_def List.map_filter_def)

lemma failedAttempts_simps [simp]:
  "failedAttempts [] = []"
  "failedAttempts (e # es) =
     (case attemptedKey e of None \<Rightarrow> failedAttempts es | Some k \<Rightarrow> k # failedAttempts es)"
  by (simp_all add: failedAttempts_def split: option.splits)

lemma refreshOutcomes_simps [simp]:
  "refreshOutcomes [] = []"
  "refreshOutcomes (e # es) =
     (case refreshOutcome e of None \<Rightarrow> refreshOutcomes es | Some k \<Rightarrow> k # refreshOutcomes es)"
  by (simp_all add: refreshOutcomes_def split: option.splits)

lemma refresh_frame:
  assumes "refreshSingleTokenByIndex E i (tm, w) = (r, tm', w')"
  shows "configs tm' = configs tm" and "configOrder tm' = configOrder tm"
    and "currentIndex tm' = currentIndex tm" and "exhausted tm' = exhausted tm"
    and "lastRefresh tm' = lastRefresh tm" and "ttl (cache tm') = ttl (cache tm)"
  using assms
  by (auto simp: refreshSingleTokenByIndex_def Let_def split: if_splits prod.splits sum.splits)

lemma refresh_effects:
  assumes "refreshSingleTokenByIndex E i (tm, w) = (r, tm', w')"
  shows "refreshCalls w' = refreshCalls w
           @ (if i < length (configs tm) \<and> \<not> Disabled (configs tm ! i)
              then [configs tm ! i] else [])"
    and "failedAttempts (logs w') = failedAttempts (logs w)"
    and "refreshOutcomes (logs w') = refreshOutcomes (logs w)
           @ (case r of None \<Rightarrow> [Inr (TokenCacheKeyFormat E i)] | Some err \<Rightarrow> [])"
  using assms
  by (auto simp: refreshSingleTokenByIndex_def Let_def callRefresh_def callUsage_def now_def
      logmsg_def failedAttempts_append refreshOutcomes_append
      split: if_splits prod.splits sum.splits)

lemma refresh_keeps_entries:
  assumes "refreshSingleTokenByIndex E i (tm, w) = (r, tm', w')"
    and "tokens (cache tm) k \<noteq> None"
  shows "tokens (cache tm') k \<noteq> None"
  using assms
  by (auto simp: refreshSingleTokenByIndex_def Let_def split: if_splits prod.splits sum.splits)






section \<open>Selection\<close>

lemma switchNext_eq:
  "switchNext key (tm, w) =
     (Continue, markExhausted key tm,
      logmsg (LogSwitchNext key (currentIndex (markExhausted key tm))) w)"
  by (simp add: switchNext_def Let_def)

lemma checkUsable_cases:
  assumes "checkUsable E key c (tm, w) = (st, tm', w')"
  shows "(st = Return (Selected key c) \<and> tm' = tm
            \<and> failedAttempts (logs w') = failedAttempts (logs w)
            \<and> clockReads w' = Suc (clockReads w) \<and> fst (IsUsable E c w)
            \<and> refreshCalls w' = refreshCalls w)
       \<or> (st = Continue \<and> tm' = markExhausted key tm
            \<and> failedAttempts (logs w') = failedAttempts (logs w) @ [key]
            \<and> refreshCalls w' = refreshCalls w)"
  using assms
  by (auto simp: checkUsable_def IsUsable_eq switchNext_eq logmsg_def failedAttempts_append
      split: if_splits)

lemma refreshFailed_eq:
  "refreshFailed key err (tm, w) =
     (Continue, markExhausted key tm, logmsg (LogRefreshFailed key err) w)"
  by (simp add: refreshFailed_def)

lemma IsUsable_clock:
  "clockReads v = clockReads w \<Longrightarrow> fst (IsUsable E c v) = fst (IsUsable E c w)"
  by (simp add: IsUsable_eq)

lemma attempt_spec:
  assumes run: "attempt E (tm, w) = (st, tm', w')"
    and inrange: "currentIndex tm < length (configOrder tm)"
  shows "attemptOk E tm w st tm' w'"
proof -
  let ?key = "configOrder tm ! currentIndex tm"
  have key: "rotationKey tm 0 = ?key"
    using inrange by (simp add: rotationKey_def)
  have usable: "attemptOk E tm w st tm' w'"
    if cu: "checkUsable E ?key c (tm2, w2) = (st, tm', w')"
      and same: "configOrder tm2 = configOrder tm" "configs tm2 = configs tm"
        "currentIndex tm2 = currentIndex tm" "exhausted tm2 = exhausted tm"
      and lg: "failedAttempts (logs w2) = failedAttempts (logs w)"
      and ent: "tokens (cache tm2) ?key = Some c"
    for c tm2 w2
    using checkUsable_cases [OF cu] same lg ent key
    by (auto simp: attemptOk_def markExhausted_def IsUsable_eq)
  have failed: "attemptOk E tm w st tm' w'"
    if rf: "refreshFailed ?key err (tm2, w2) = (st, tm', w')"
      and same: "configOrder tm2 = configOrder tm" "configs tm2 = configs tm"
        "currentIndex tm2 = currentIndex tm" "exhausted tm2 = exhausted tm"
      and lg: "failedAttempts (logs w2) = failedAttempts (logs w)"
    for err tm2 w2
    using rf same lg key
    by (auto simp: refreshFailed_eq attemptOk_def markExhausted_def logmsg_def
        failedAttempts_append)
  have switched: "attemptOk E tm w st tm' w'"
    if sw: "switchNext ?key (tm2, w2) = (st, tm', w')"
      and same: "configOrder tm2 = configOrder tm" "configs tm2 = configs tm"
        "currentIndex tm2 = currentIndex tm" "exhausted tm2 = exhausted tm"
      and lg: "failedAttempts (logs w2) = failedAttempts (logs w)"
    for tm2 w2
    using sw same lg key
    by (auto simp: switchNext_eq attemptOk_def markExhausted_def logmsg_def
        failedAttempts_append)
  show ?thesis
  proof (cases "tokens (cache tm) ?key")
    case None
    obtain r tm2 w2 where rf: "refreshSingleTokenByIndex E (currentIndex tm) (tm, w) = (r, tm2, w2)"
      by (metis prod_cases3)
    note fr = refresh_frame [OF rf] and eff = refresh_effects [OF rf]
    show ?thesis
    proof (cases r)
      case (Some err)
      with run None rf inrange have "refreshFailed ?key err (tm2, w2) = (st, tm', w')"
        by (simp add: attempt_def Let_def)
      then show ?thesis by (rule failed) (use fr eff in simp_all)
    next
      case noerr: None
      show ?thesis
      proof (cases "tokens (cache tm2) ?key")
        case None
        with run \<open>tokens (cache tm) ?key = None\<close> rf noerr inrange
        have "switchNext ?key (tm2, w2) = (st, tm', w')"
          by (simp add: attempt_def Let_def)
        then show ?thesis by (rule switched) (use fr eff in simp_all)
      next
        case (Some c)
        with run \<open>tokens (cache tm) ?key = None\<close> rf noerr inrange
        have "checkUsable E ?key c (tm2, w2) = (st, tm', w')"
          by (simp add: attempt_def Let_def)
        then show ?thesis by (rule usable) (use fr eff Some in simp_all)
      qed
    qed
  next
    case (Some cached)
    let ?w1 = "w\<lparr>clockReads := Suc (clockReads w)\<rparr>"
    have since: "since E (CachedAt cached) w = (clock E (clockReads w) - CachedAt cached, ?w1)"
      by (simp add: since_def now_def)
    show ?thesis
    proof (cases "clock E (clockReads w) - CachedAt cached > ttl (cache tm)")
      case False
      with run Some since inrange have "checkUsable E ?key cached (tm, ?w1) = (st, tm', w')"
        by (simp add: attempt_def Let_def)
      then show ?thesis by (rule usable) (use Some in simp_all)
    next
      case True
      obtain r tm2 w2 where
        rf: "refreshSingleTokenByIndex E (currentIndex tm) (tm, ?w1) = (r, tm2, w2)"
        by (metis prod_cases3)
      note fr = refresh_frame [OF rf] and eff = refresh_effects [OF rf]
      show ?thesis
      proof (cases r)
        case (Some err)
        with run \<open>tokens (cache tm) ?key = Some cached\<close> since True rf inrange
        have "refreshFailed ?key err (tm2, w2) = (st, tm', w')"
          by (simp add: attempt_def Let_def)
        then show ?thesis by (rule failed) (use fr eff in simp_all)
      next
        case None
        have "tokens (cache tm2) ?key \<noteq> None"
          using refresh_keeps_entries [OF rf] \<open>tokens (cache tm) ?key = Some cached\<close> by simp
        then obtain c where c: "tokens (cache tm2) ?key = Some c"
          by blast
        with run \<open>tokens (cache tm) ?key = Some cached\<close> since True rf None inrange
        have "checkUsable E ?key c (tm2, w2) = (st, tm', w')"
          by (simp add: attempt_def Let_def)
        then show ?thesis by (rule usable) (use fr eff c in simp_all)
      qed
    qed
  qed
qed

lemma rotationKey_shift:
  assumes "configOrder tm1 = configOrder tm"
    and "currentIndex tm1 = (currentIndex tm + 1) mod length (configOrder tm)"
  shows "rotationKey tm1 i = rotationKey tm (Suc i)"
  using assms by (simp add: rotationKey_def mod_add_left_eq)

lemma selectLoop_spec:
  assumes "selectLoop E a (tm, w) = (sel, tm', w')"
    and "currentIndex tm < length (configOrder tm)"
    and "a \<le> length (configOrder tm)"
  shows "\<exists>j. loopOk E (length (configOrder tm) - a) tm w sel tm' w' j"
  using assms
proof (induction n \<equiv> "length (configOrder tm) - a" arbitrary: a tm w)
  case 0
  then have "sel = NoToken" "tm' = tm" "failedAttempts (logs w') = failedAttempts (logs w)"
    by (auto simp: logmsg_def failedAttempts_append)
  with 0 have "loopOk E (length (configOrder tm) - a) tm w sel tm' w' 0"
    by (simp add: loopOk_def)
  then show ?case ..
next
  case (Suc n)
  let ?N = "length (configOrder tm)"
  from Suc.hyps(2) have lt: "a < ?N" by simp
  obtain st tm1 w1 where att: "attempt E (tm, w) = (st, tm1, w1)"
    by (metis prod_cases3)
  have ok: "attemptOk E tm w st tm1 w1"
    using attempt_spec [OF att Suc.prems(2)] .
  show ?case
  proof (cases st)
    case (Return r)
    with Suc.prems(1) lt att have res: "sel = r" "tm' = tm1" "w' = w1"
      by simp_all
    from ok Return res lt Suc.hyps(2) Suc.prems(2)
    have "loopOk E (?N - a) tm w sel tm' w' 0"
      by (auto simp: attemptOk_def loopOk_def split: selection.splits)
    then show ?thesis ..
  next
    case Continue
    with Suc.prems(1) lt att have rest: "selectLoop E (Suc a) (tm1, w1) = (sel, tm', w')"
      by simp
    from ok Continue have step:
      "configOrder tm1 = configOrder tm" "configs tm1 = configs tm"
      "currentIndex tm1 = (currentIndex tm + 1) mod ?N"
      "exhausted tm1 = insert (rotationKey tm 0) (exhausted tm)"
      "failedAttempts (logs w1) = failedAttempts (logs w) @ [rotationKey tm 0]"
      by (simp_all add: attemptOk_def)
    have n: "n = length (configOrder tm1) - Suc a"
      using Suc.hyps(2) step(1) by simp
    have pos: "0 < ?N"
      using lt by linarith
    have c1: "currentIndex tm1 < length (configOrder tm1)"
      using step(1,3) mod_less_divisor [OF pos] by simp
    have a1: "Suc a \<le> length (configOrder tm1)"
      using lt step(1) by simp
    from Suc.hyps(1) [OF n rest c1 a1] obtain j where
      j: "loopOk E (length (configOrder tm1) - Suc a) tm1 w1 sel tm' w' j" ..
    have shift: "rotationKey tm (Suc i) = rotationKey tm1 i" for i
      using rotationKey_shift [OF step(1,3)] by simp
    have m: "map (rotationKey tm) [0..<Suc j] = rotationKey tm 0 # map (rotationKey tm1) [0..<j]"
      by (simp add: upt_conv_Cons map_Suc_upt [symmetric] shift comp_def del: upt_Suc)
    have img: "{0..<Suc j} = insert 0 (Suc ` {0..<j})"
      by (auto simp: image_iff less_Suc_eq_0_disj)
    have "rotationKey tm ` Suc ` {0..<j} = rotationKey tm1 ` {0..<j}"
      by (simp only: image_image shift)
    then have e: "rotationKey tm ` {0..<Suc j}
        = insert (rotationKey tm 0) (rotationKey tm1 ` {0..<j})"
      by (simp only: img image_insert)
    have idx: "(currentIndex tm1 + j) mod ?N = (currentIndex tm + Suc j) mod ?N"
      using step(3) by (simp add: mod_add_left_eq)
    have "loopOk E (?N - a) tm w sel tm' w' (Suc j)"
      using j step lt idx
      unfolding loopOk_def m e
      by (auto simp: shift split: selection.splits)
    then show ?thesis ..
  qed
qed


lemma selectBestTokenUnlocked_spec:
  assumes "configOrder tm \<noteq> []" and "currentIndex tm < length (configOrder tm)"
    and "selectBestTokenUnlocked E (tm, w) = (sel, tm1, w1)"
  shows "\<exists>j. loopOk E (length (configOrder tm)) tm w sel tm1 w1 j"
proof -
  from assms(1,3) have "selectLoop E 0 (tm, w) = (sel, tm1, w1)"
    by (simp add: selectBestTokenUnlocked_def)
  from selectLoop_spec [OF this assms(2)] show ?thesis
    by simp
qed

lemma getBestToken_keeps_rotation:
  assumes "configOrder tm \<noteq> []" and "currentIndex tm < length (configOrder tm)"
    and "getBestToken E (tm, w) = (r, tm', w')"
  shows "configOrder tm' = configOrder tm" and "configs tm' = configs tm"
    and "currentIndex tm' < length (configOrder tm')" and "r \<noteq> Inl RuntimePanic"
proof -
  obtain sel tm1 w1 where sel: "selectBestTokenUnlocked E (tm, w) = (sel, tm1, w1)"
    by (metis prod_cases3)
  from selectBestTokenUnlocked_spec [OF assms(1,2) sel] obtain j where
    ok: "loopOk E (length (configOrder tm)) tm w sel tm1 w1 j" ..
  have pos: "0 < length (configOrder tm)"
    using assms(1) by simp
  from ok have fr: "configOrder tm1 = configOrder tm" "configs tm1 = configs tm"
    "currentIndex tm1 < length (configOrder tm)" "sel \<noteq> Panicked"
    using mod_less_divisor [OF pos] by (auto simp: loopOk_def)
  from assms(3) sel fr
  show "configOrder tm' = configOrder tm" "configs tm' = configs tm"
    "currentIndex tm' < length (configOrder tm')" "r \<noteq> Inl RuntimePanic"
    by (auto simp: getBestToken_def now_def Let_def split: selection.splits)
qed

lemma NewTokenManager_state:
  "NewTokenManager E cfgs w = (tm, w') \<Longrightarrow>
   configs tm = cfgs \<and> configOrder tm = map (TokenCacheKeyFormat E) [0..<length cfgs]
   \<and> currentIndex tm = 0 \<and> tokens (cache tm) = Map.empty \<and> exhausted tm = {}"
  by (auto simp: NewTokenManager_def generateConfigOrder_def NewSimpleTokenCache_def Let_def)

lemmas run_defs =
  getBestToken_def selectBestTokenUnlocked_def sampleManager_def attempt_def
  refreshSingleTokenByIndex_def sampleEnv_def freshWorld_def socialConfig_def callRefresh_def
  callUsage_def sampleExchange_def sampleCheck_def now_def since_def logmsg_def sampleUsage_def
  CalculateAvailableCount_def sampleKey_def refreshFailed_def markExhausted_def checkUsable_def
  IsUsable_def switchNext_def sampleClock_def Let_def twoConfigs_def sampleEntry_def
  AuthMethodSocial_def zeroTime_def



lemma getBestToken_sticky:
  assumes "configOrder tm \<noteq> []" and "currentIndex tm < length (configOrder tm)"
    and "tokens (cache tm) (configOrder tm ! currentIndex tm) = Some entry"
    and "clock E (clockReads w) - CachedAt entry \<le> ttl (cache tm)"
    and "clock E (Suc (clockReads w)) \<le> ExpiresAt (Token entry)"
    and "0 < Available entry"
  shows "getBestToken E (tm, w) =
     (Inr (Token entry),
      tm\<lparr>cache := (cache tm)\<lparr>tokens := (tokens (cache tm))
         (configOrder tm ! currentIndex tm \<mapsto>
            entry\<lparr>LastUsed := clock E (clockReads w + 2),
                  Available := Available entry - 1\<rparr>)\<rparr>\<rparr>,
      w\<lparr>clockReads := clockReads w + 3,
        logs := logs w @ [LogSelected (configOrder tm ! currentIndex tm) (currentIndex tm)
                            (Available entry)]\<rparr>)"
  using assms
  by (simp add: getBestToken_def selectBestTokenUnlocked_def attempt_def since_def now_def
      checkUsable_def IsUsable_def logmsg_def Let_def)

text \<open>
  C5, as stated, fails for an entry older than the cache TTL: the entry under the
  cursor is usable and has 5 uses left, yet the call refreshes it, and when that
  refresh fails the cursor moves on and the token of the next credential is
  returned.
\<close>

theorem getBestToken_stale_entry_counterexample:
  "tokens (cache staleManager) (configOrder staleManager ! currentIndex staleManager)
     = Some (sampleEntry 5 (- 1000) 3600)
   \<and> fst (IsUsable sampleEnv (sampleEntry 5 (- 1000) 3600) freshWorld)
   \<and> 1 < Available (sampleEntry 5 (- 1000) 3600)
   \<and> fst (getBestToken sampleEnv (staleManager, freshWorld))
       = Inr \<lparr>AccessToken = ''at-good'', ExpiresAt = 3600\<rparr>
   \<and> currentIndex (fst (snd (getBestToken sampleEnv (staleManager, freshWorld)))) = 1
   \<and> refreshCalls (snd (snd (getBestToken sampleEnv (staleManager, freshWorld))))
       = [socialConfig ''revoked'', socialConfig ''good'']"
  by (simp add: staleManager_def run_defs)

text \<open>
  C5, amended. Whenever the entry under the cursor is cached, its cache age does not
  exceed the TTL, its token has not expired and it has more than one use left,
  \<open>getBestToken\<close> returns that entry's token, leaves the cursor where it is and
  calls neither the exchange nor the usage check. The entry stays cached with one use
  fewer, still positive, so the next call returns the same token again, without
  moving the cursor or refreshing, provided the entry is still within the TTL and
  unexpired at that call.
\<close>

theorem getBestToken_sticks_to_fresh_entry:
  assumes "configOrder tm \<noteq> []" and "currentIndex tm < length (configOrder tm)"
    and "tokens (cache tm) (configOrder tm ! currentIndex tm) = Some entry"
    and "clock E (clockReads w) - CachedAt entry \<le> ttl (cache tm)"
    and "clock E (Suc (clockReads w)) \<le> ExpiresAt (Token entry)"
    and "1 < Available entry"
  shows "case getBestToken E (tm, w) of (r, tm', w') \<Rightarrow>
           r = Inr (Token entry)
         \<and> currentIndex tm' = currentIndex tm
         \<and> refreshCalls w' = refreshCalls w \<and> usageCalls w' = usageCalls w
         \<and> configOrder tm' = configOrder tm \<and> configs tm' = configs tm
         \<and> (\<exists>entry'. tokens (cache tm') (configOrder tm ! currentIndex tm) = Some entry'
               \<and> Token entry' = Token entry \<and> CachedAt entry' = CachedAt entry
               \<and> Available entry' = Available entry - 1 \<and> 0 < Available entry')
         \<and> (clock E (clockReads w') - CachedAt entry \<le> ttl (cache tm)
              \<and> clock E (Suc (clockReads w')) \<le> ExpiresAt (Token entry)
              \<longrightarrow> (case getBestToken E (tm', w') of (r', tm'', w'') \<Rightarrow>
                     r' = Inr (Token entry) \<and> currentIndex tm'' = currentIndex tm
                     \<and> refreshCalls w'' = refreshCalls w))"
proof -
  let ?key = "configOrder tm ! currentIndex tm"
  let ?e1 = "entry\<lparr>LastUsed := clock E (clockReads w + 2), Available := Available entry - 1\<rparr>"
  let ?tm1 = "tm\<lparr>cache := (cache tm)\<lparr>tokens := (tokens (cache tm))(?key \<mapsto> ?e1)\<rparr>\<rparr>"
  let ?w1 = "w\<lparr>clockReads := clockReads w + 3,
               logs := logs w @ [LogSelected ?key (currentIndex tm) (Available entry)]\<rparr>"
  from assms(6) have pos: "0 < Available entry" by simp
  have first: "getBestToken E (tm, w) = (Inr (Token entry), ?tm1, ?w1)"
    using getBestToken_sticky [OF assms(1-5) pos] .
  have second: "getBestToken E (?tm1, ?w1) =
      (Inr (Token entry),
       ?tm1\<lparr>cache := (cache ?tm1)\<lparr>tokens := (tokens (cache ?tm1))(?key \<mapsto>
          ?e1\<lparr>LastUsed := clock E (clockReads ?w1 + 2), Available := Available ?e1 - 1\<rparr>)\<rparr>\<rparr>,
       ?w1\<lparr>clockReads := clockReads ?w1 + 3,
           logs := logs ?w1 @ [LogSelected ?key (currentIndex tm) (Available ?e1)]\<rparr>)"
    if "clock E (clockReads ?w1) - CachedAt entry \<le> ttl (cache tm)"
      and "clock E (Suc (clockReads ?w1)) \<le> ExpiresAt (Token entry)"
    using getBestToken_sticky [where tm = ?tm1 and entry = ?e1 and E = E and w = ?w1]
      assms(1,2,6) that by simp
  show ?thesis
    unfolding first using assms(6) second by (simp del: fun_upd_apply) simp
qed

theorem getBestToken_sticks_to_fresh_entry_witness:
  "fst (getBestToken sampleEnv (freshManager, freshWorld))
     = Inr \<lparr>AccessToken = ''at-cached'', ExpiresAt = 3600\<rparr>
   \<and> currentIndex (fst (snd (getBestToken sampleEnv (freshManager, freshWorld)))) = 0
   \<and> refreshCalls (snd (snd (getBestToken sampleEnv (freshManager, freshWorld)))) = []"
  using getBestToken_sticks_to_fresh_entry
          [where tm = freshManager and E = sampleEnv and w = freshWorld
             and entry = "sampleEntry 5 100 3600"]
  by (simp add: freshManager_def sampleManager_def twoConfigs_def sampleEnv_def sampleClock_def
      freshWorld_def sampleEntry_def sampleKey_def case_prod_beta)

text \<open>
  C4 on the code: a credential whose usage snapshot leaves half a credit (limit 50,
  used 49.5) is refreshed, found usable and selected; the decrement by one takes its
  \<open>Available\<close> from 1/2 to -1/2.
\<close>

theorem getBestToken_half_credit_goes_negative:
  "CalculateAvailableCount halfUsage = 1 / 2
   \<and> fst (getBestToken halfEnv (sampleManager [socialConfig ''good''] Map.empty, freshWorld))
       = Inr \<lparr>AccessToken = ''at-good'', ExpiresAt = 3600\<rparr>
   \<and> map_option Available
        (tokens (cache (fst (snd (getBestToken halfEnv
           (sampleManager [socialConfig ''good''] Map.empty, freshWorld)))))
           (sampleKey 0))
       = Some (- (1 / 2))"
  by (simp add: halfEnv_def halfUsage_def run_defs)

section \<open>Validation of loaded credentials\<close>

lemma processLoop_valid:
  "list_all validConfig valid \<Longrightarrow> list_all validConfig (processLoop cfgs valid)"
  by (induction cfgs arbitrary: valid)
     (auto simp: validConfig_def Let_def AuthMethodIdC_def AuthMethodSocial_def)

lemma processConfigs_valid: "list_all validConfig (processConfigs cfgs)"
  by (simp add: processConfigs_def processLoop_valid)

lemma loadConfigs_valid:
  "loadConfigs E w = (Inr cfgs, w') \<Longrightarrow> list_all validConfig cfgs"
  by (auto simp: loadConfigs_def Let_def processConfigs_valid
      split: if_splits sum.splits prod.splits)

text \<open>
  C2 on the code: the CSV row \<open>true,,,\<close> yields an \<open>IdC\<close> credential whose
  refresh secret, client id and client secret are all empty, and it reaches the pool
  both through \<open>NewAuthService\<close> (the primary source failing) and through
  \<open>AddAccountsFromCSV\<close>. Credentials from the primary source are validated
  (\<open>loadConfigs_valid\<close>); those from CSV are not.
\<close>

theorem csv_row_without_secrets_reaches_pool:
  "(case fst (NewAuthService blankRowEnv freshWorld) of
      Inl err \<Rightarrow> []
    | Inr svc \<Rightarrow> configs (tokenManager svc))
     = [\<lparr>AuthType = ''IdC'', RefreshToken = [], ClientID = [], ClientSecret = [],
         Disabled = False\<rparr>]
   \<and> configs (fst (snd (AddAccountsFromCSV blankRowEnv ''accounts.csv''
        (sampleManager [socialConfig ''good''] Map.empty, freshWorld))))
     = [socialConfig ''good'',
        \<lparr>AuthType = ''IdC'', RefreshToken = [], ClientID = [], ClientSecret = [],
         Disabled = False\<rparr>]"
  by (simp add: blankRowEnv_def NewAuthService_def loadConfigs_def deprecatedVars_def
      LoadAccountsFromCSV_def asciiTrimSpace_def asciiToLower_def asciiLower_def isSpace_def
      AuthMethodIdC_def buildService_def NewTokenManager_def generateConfigOrder_def
      NewSimpleTokenCache_def AddAccountsFromCSV_def refreshCacheUnlocked_def run_defs)

end
